theory Spec2Isabelle
  imports Complex_Main "HOL-Library.Char_ord" "HOL-Library.List_Lexorder"
    "HOL-Library.Option_ord" "HOL-Library.Multiset"
begin

section \<open>The store of friend_connector.py\<close>

text \<open>
  The program keeps three SQLite tables (\<^verbatim>\<open>init_db\<close>): \<^verbatim>\<open>friends(id, name)\<close>,
  \<^verbatim>\<open>contacts(id, friend_id, date, medium)\<close> and \<^verbatim>\<open>goals(friend_id, medium, frequency)\<close>.
  A table is a list of rows in insertion order. The two \<^verbatim>\<open>AUTOINCREMENT\<close> keys take their
  values from SQLite's \<^verbatim>\<open>sqlite_sequence\<close> counters, which are part of the store.

  Every writer of a \<^verbatim>\<open>medium\<close> column passes a member of the enumeration \<^verbatim>\<open>Medium\<close>, so the
  rows hold a \<open>Medium\<close>; its text is \<open>medium_value\<close>. A date is the string the user gave
  (\<^verbatim>\<open>date: str\<close>, not checked), kept as text and compared bytewise as SQLite compares
  text. (A string that is a numeral would be stored as a number by the affinity of the
  column type \<^verbatim>\<open>DATE\<close>; the model keeps every date as text.) Names are compared bytewise
  too, which is the order of \<open>string\<close> here.
\<close>

datatype Medium = Meet | Call | Talk | Text

fun medium_value :: "Medium \<Rightarrow> string" where
  "medium_value Meet = ''meet''"
| "medium_value Call = ''call''"
| "medium_value Talk = ''talk''"
| "medium_value Text = ''text''"

fun past_tense :: "Medium \<Rightarrow> string" where
  "past_tense Meet = ''met''"
| "past_tense Call = ''called''"
| "past_tense Talk = ''talked''"
| "past_tense Text = ''texted''"

record friend_row =
  friend_id :: int
  friend_name :: string

record contact_row =
  contact_id :: int
  contact_friend_id :: int
  contact_date :: string
  contact_medium :: Medium

record goal_row =
  goal_friend_id :: int
  goal_medium :: Medium
  goal_frequency :: int

record db =
  friends :: "friend_row list"
  contacts :: "contact_row list"
  goals :: "goal_row list"
  friends_seq :: int
  contacts_seq :: int

text \<open>
  A command either raises (the \<^verbatim>\<open>with get_db()\<close> block then rolls the transaction back,
  so the store is the one before the command) or returns what it printed and the new store.
  Nothing in the program catches an exception: one that is raised ends the invocation.
\<close>

datatype error = IntegrityError string | OverflowError

type_synonym outcome = "error + (string list \<times> db)"

definition init_db :: db where
  "init_db = \<lparr>friends = [], contacts = [], goals = [], friends_seq = 0, contacts_seq = 0\<rparr>"

text \<open>\<^verbatim>\<open>SELECT * FROM friends WHERE name = ?\<close> followed by \<^verbatim>\<open>fetchone()\<close>.\<close>

definition select_friend :: "db \<Rightarrow> string \<Rightarrow> friend_row option" where
  "select_friend st nm = List.find (\<lambda>f. friend_name f = nm) (friends st)"

text \<open>
  An \<^verbatim>\<open>AUTOINCREMENT\<close> key is one more than the largest key the table holds or ever held.
\<close>

definition next_rowid :: "int \<Rightarrow> int list \<Rightarrow> int" where
  "next_rowid seq ids = fold max ids seq + 1"

subsection \<open>Printing numbers\<close>

fun digit_char :: "nat \<Rightarrow> char" where
  "digit_char n = char_of (48 + n)"

function show_nat :: "nat \<Rightarrow> string" where
  "show_nat n = (if n < 10 then [digit_char n] else show_nat (n div 10) @ [digit_char (n mod 10)])"
  by pat_completeness auto
termination
  by (relation "measure (\<lambda>n. n)") auto

definition show_int :: "int \<Rightarrow> string" where
  "show_int i = (if i < 0 then CHR ''-'' # show_nat (nat (- i)) else show_nat (nat i))"

text \<open>\<^verbatim>\<open>str.capitalize\<close> on the ASCII words of \<open>past_tense\<close>.\<close>

definition upper_char :: "char \<Rightarrow> char" where
  "upper_char c = (if CHR ''a'' \<le> c \<and> c \<le> CHR ''z'' then char_of (of_char c - (32::nat)) else c)"

definition lower_char :: "char \<Rightarrow> char" where
  "lower_char c = (if CHR ''A'' \<le> c \<and> c \<le> CHR ''Z'' then char_of (of_char c + (32::nat)) else c)"

fun capitalize :: "string \<Rightarrow> string" where
  "capitalize [] = []"
| "capitalize (c # cs) = upper_char c # map lower_char cs"

subsection \<open>The commands that write\<close>

text \<open>\<^verbatim>\<open>add\<close>: the insert fails on the \<^verbatim>\<open>UNIQUE\<close> constraint of \<^verbatim>\<open>friends.name\<close>.\<close>

definition add :: "db \<Rightarrow> string \<Rightarrow> outcome" where
  "add st nm =
     (if nm \<in> set (map friend_name (friends st))
      then Inl (IntegrityError ''UNIQUE constraint failed: friends.name'')
      else let i = next_rowid (friends_seq st) (map friend_id (friends st))
           in Inr ([''Added '' @ nm],
                   st\<lparr>friends := friends st @ [\<lparr>friend_id = i, friend_name = nm\<rparr>],
                      friends_seq := i\<rparr>))"

text \<open>
  \<^verbatim>\<open>goal\<close>: frequency 0 deletes the row of the pair; any other frequency is inserted, or
  replaces the frequency of the row that has the primary key \<^verbatim>\<open>(friend_id, medium)\<close>.
  SQLite integers have 64 bits: binding a larger Python integer raises.
\<close>

definition upsert_goal :: "goal_row \<Rightarrow> goal_row list \<Rightarrow> goal_row list" where
  "upsert_goal g gs =
     (if list_ex (\<lambda>h. goal_friend_id h = goal_friend_id g \<and> goal_medium h = goal_medium g) gs
      then map (\<lambda>h. if goal_friend_id h = goal_friend_id g \<and> goal_medium h = goal_medium g
                     then h\<lparr>goal_frequency := goal_frequency g\<rparr> else h) gs
      else gs @ [g])"

definition goal :: "db \<Rightarrow> string \<Rightarrow> Medium \<Rightarrow> int \<Rightarrow> outcome" where
  "goal st nm medium frequency =
     (case select_friend st nm of
        None \<Rightarrow> Inr ([''[red]'' @ nm @ '' not found in friends[/red]''], st)
      | Some friend \<Rightarrow>
          if frequency = 0
          then Inr ([''Removed goal to '' @ medium_value medium @ '' '' @ nm],
                    st\<lparr>goals := filter (\<lambda>g. \<not> (goal_friend_id g = friend_id friend
                                                \<and> goal_medium g = medium)) (goals st)\<rparr>)
          else if frequency < - (2 ^ 63) \<or> 2 ^ 63 \<le> frequency
          then Inl OverflowError
          else Inr ([''Set goal to '' @ medium_value medium @ '' '' @ nm @ '' every ''
                       @ show_int frequency @ '' days''],
                    st\<lparr>goals := upsert_goal \<lparr>goal_friend_id = friend_id friend,
                                goal_medium = medium, goal_frequency = frequency\<rparr> (goals st)\<rparr>))"

text \<open>
  \<^verbatim>\<open>rename\<close>: the \<^verbatim>\<open>UPDATE\<close> rewrites the name of every row called \<open>nm\<close> and fails on
  the \<^verbatim>\<open>UNIQUE\<close> constraint when two rows would then share a name. The message prints the
  new name twice unless the new name is empty. This is the function \<^verbatim>\<open>rename\<close> itself; its
  decorator is written \<^verbatim>\<open>@app.command\<close>, without the parentheses of the other commands.
\<close>

definition rename :: "db \<Rightarrow> string \<Rightarrow> string \<Rightarrow> outcome" where
  "rename st nm new_name =
     (case select_friend st nm of
        None \<Rightarrow> Inr ([''[red]'' @ nm @ '' not present in friends table[/red]''], st)
      | Some friend \<Rightarrow>
          let fs = map (\<lambda>f. if friend_name f = nm then f\<lparr>friend_name := new_name\<rparr> else f)
                     (friends st)
          in if \<not> distinct (map friend_name fs)
             then Inl (IntegrityError ''UNIQUE constraint failed: friends.name'')
             else Inr ([''Renamed '' @ (if new_name \<noteq> [] then new_name else nm) @ '' to ''
                          @ new_name],
                       st\<lparr>friends := fs\<rparr>))"

text \<open>
  \<^verbatim>\<open>contact\<close>: the friend's id comes from a scalar subquery, which is \<^verbatim>\<open>NULL\<close> when no
  friend has the name; the insert then fails on \<^verbatim>\<open>friend_id INTEGER NOT NULL\<close>.
\<close>

definition contact :: "db \<Rightarrow> string \<Rightarrow> Medium \<Rightarrow> string \<Rightarrow> outcome" where
  "contact st nm medium date =
     (case map_option friend_id (select_friend st nm) of
        None \<Rightarrow> Inl (IntegrityError ''NOT NULL constraint failed: contacts.friend_id'')
      | Some fid \<Rightarrow>
          let i = next_rowid (contacts_seq st) (map contact_id (contacts st))
          in Inr ([capitalize (past_tense medium) @ '' with '' @ nm @ '' on '' @ date],
                  st\<lparr>contacts := contacts st @ [\<lparr>contact_id = i, contact_friend_id = fid,
                                    contact_date = date, contact_medium = medium\<rparr>],
                     contacts_seq := i\<rparr>))"

section \<open>The report of \<^verbatim>\<open>list\<close>\<close>

subsection \<open>SQL values\<close>

text \<open>
  A column that may be \<^verbatim>\<open>NULL\<close> is an \<open>option\<close>, \<open>None\<close> for \<^verbatim>\<open>NULL\<close>. SQLite orders
  \<^verbatim>\<open>NULL\<close> below every other value, which is the order of \<open>option\<close> here. The
  \<^verbatim>\<open>REAL\<close> values of the query (Julian day numbers, the percentage) are exact rationals.
  \<^verbatim>\<open>julianday\<close> is SQLite's: the report takes as parameters the function from a stored
  date to its Julian day number (\<^verbatim>\<open>NULL\<close> when the text is no date) and the value of
  \<^verbatim>\<open>julianday('now', 'localtime')\<close>.
\<close>

text \<open>The \<^verbatim>\<open>CASE\<close> expression \<^verbatim>\<open>medium_hierarchy\<close>.\<close>

definition medium_hierarchy :: "string \<Rightarrow> int" where
  "medium_hierarchy column =
     (if column = ''meet'' then 4
      else if column = ''call'' then 3
      else if column = ''talk'' then 2
      else if column = ''text'' then 1
      else 0)"

text \<open>\<^verbatim>\<open>CAST(x AS INTEGER)\<close> and Python's \<^verbatim>\<open>int(x)\<close> drop the fraction.\<close>

definition trunc :: "rat \<Rightarrow> int" where
  "trunc q = (if 0 \<le> q then \<lfloor>q\<rfloor> else \<lceil>q\<rceil>)"

text \<open>The aggregate \<^verbatim>\<open>MAX\<close> skips \<^verbatim>\<open>NULL\<close> and is \<^verbatim>\<open>NULL\<close> when nothing is left.\<close>

fun sql_max :: "('a::linorder) option list \<Rightarrow> 'a option" where
  "sql_max [] = None"
| "sql_max (None # xs) = sql_max xs"
| "sql_max (Some x # xs) = (case sql_max xs of None \<Rightarrow> Some x | Some y \<Rightarrow> Some (max x y))"

text \<open>
  \<^verbatim>\<open>GROUP BY\<close>: the rows with the key of the first row form a group (its first row and
  the others), then the remaining rows are grouped.
\<close>

function group_by :: "('a \<Rightarrow> 'k) \<Rightarrow> 'a list \<Rightarrow> ('a \<times> 'a list) list" where
  "group_by key [] = []"
| "group_by key (x # xs) =
     (x, filter (\<lambda>y. key y = key x) xs) # group_by key (filter (\<lambda>y. key y \<noteq> key x) xs)"
  by pat_completeness auto
termination
  by (relation "measure (\<lambda>(key, xs). length xs)") (auto simp: less_Suc_eq_le)

text \<open>\<^verbatim>\<open>ORDER BY\<close>: an insertion sort by the relation "may stand before".\<close>

fun insort_by :: "('a \<Rightarrow> 'a \<Rightarrow> bool) \<Rightarrow> 'a \<Rightarrow> 'a list \<Rightarrow> 'a list" where
  "insort_by le x [] = [x]"
| "insort_by le x (y # ys) = (if le x y then x # y # ys else y # insort_by le x ys)"

definition sort_by :: "('a \<Rightarrow> 'a \<Rightarrow> bool) \<Rightarrow> 'a list \<Rightarrow> 'a list" where
  "sort_by le xs = foldr (insort_by le) xs []"

subsection \<open>The query\<close>

record sub_row =
  sub_id :: int
  sub_name :: string
  sub_medium :: Medium
  sub_frequency :: int
  sub_last_valid_contact :: "string option"
  sub_days_since :: "int option"
  sub_percent_overdue :: "rat option"

record report_row =
  name :: string
  medium :: Medium
  frequency :: int
  days_since :: "int option"
  percent_overdue :: "rat option"
  last_valid_contact :: "string option"
  most_overdue :: "rat option"

type_synonym joined_row = "friend_row \<times> goal_row \<times> contact_row option"

text \<open>The condition of the \<^verbatim>\<open>LEFT JOIN\<close> of \<^verbatim>\<open>contacts\<close>.\<close>

definition contact_joins :: "friend_row \<Rightarrow> goal_row \<Rightarrow> contact_row \<Rightarrow> bool" where
  "contact_joins f g c =
     (friend_id f = contact_friend_id c
      \<and> medium_hierarchy (medium_value (contact_medium c))
          \<ge> medium_hierarchy (medium_value (goal_medium g)))"

text \<open>
  \<^verbatim>\<open>friends f JOIN goals g ON f.id = g.friend_id LEFT JOIN contacts c ON ...\<close>: a pair
  of a friend and a goal gives one row for each contact that joins, and one row without a
  contact when none does.
\<close>

definition left_join_contacts :: "db \<Rightarrow> friend_row \<Rightarrow> goal_row \<Rightarrow> joined_row list" where
  "left_join_contacts st f g =
     (case filter (contact_joins f g) (contacts st) of
        [] \<Rightarrow> [(f, g, None)]
      | c # cs \<Rightarrow> map (\<lambda>c. (f, g, Some c)) (c # cs))"

definition friend_goals :: "db \<Rightarrow> (friend_row \<times> goal_row) list" where
  "friend_goals st =
     concat (map (\<lambda>f. map (\<lambda>g. (f, g)) (filter (\<lambda>g. friend_id f = goal_friend_id g) (goals st)))
               (friends st))"

definition joined :: "db \<Rightarrow> joined_row list" where
  "joined st = concat (map (\<lambda>(f, g). left_join_contacts st f g) (friend_goals st))"

definition group_key :: "joined_row \<Rightarrow> int \<times> Medium" where
  "group_key j = (case j of (f, g, c) \<Rightarrow> (friend_id f, goal_medium g))"

definition days_between :: "(string \<Rightarrow> rat option) \<Rightarrow> rat \<Rightarrow> string option \<Rightarrow> int option" where
  "days_between julianday now d =
     (case d of
        None \<Rightarrow> None
      | Some s \<Rightarrow> (case julianday s of None \<Rightarrow> None | Some j \<Rightarrow> Some (trunc (now - j))))"

text \<open>\<^verbatim>\<open>100.0 * days / frequency\<close>; SQLite's division by zero is \<^verbatim>\<open>NULL\<close>.\<close>

definition percent_of :: "int option \<Rightarrow> int \<Rightarrow> rat option" where
  "percent_of days freq =
     (case days of
        None \<Rightarrow> None
      | Some n \<Rightarrow> if freq = 0 then None else Some (100 * of_int n / of_int freq))"

text \<open>
  One row of the inner \<^verbatim>\<open>SELECT\<close> for a group: the columns outside the aggregates are
  those of the group's first row.
\<close>

definition aggregate :: "(string \<Rightarrow> rat option) \<Rightarrow> rat \<Rightarrow> joined_row \<times> joined_row list \<Rightarrow> sub_row" where
  "aggregate julianday now grp =
     (case grp of ((f, g, c), rest) \<Rightarrow>
        let last = sql_max (map (\<lambda>(f, g, c). map_option contact_date c) ((f, g, c) # rest));
            days = days_between julianday now last
        in \<lparr>sub_id = friend_id f, sub_name = friend_name f, sub_medium = goal_medium g,
            sub_frequency = goal_frequency g, sub_last_valid_contact = last,
            sub_days_since = days, sub_percent_overdue = percent_of days (goal_frequency g)\<rparr>)"

definition subquery :: "(string \<Rightarrow> rat option) \<Rightarrow> rat \<Rightarrow> db \<Rightarrow> sub_row list" where
  "subquery julianday now st = map (aggregate julianday now) (group_by group_key (joined st))"

text \<open>\<^verbatim>\<open>MAX(percent_overdue) OVER(PARTITION BY id)\<close> and the outer \<^verbatim>\<open>SELECT\<close>.\<close>

definition with_most_overdue :: "sub_row list \<Rightarrow> sub_row \<Rightarrow> report_row" where
  "with_most_overdue subs r =
     \<lparr>name = sub_name r, medium = sub_medium r, frequency = sub_frequency r,
      days_since = sub_days_since r, percent_overdue = sub_percent_overdue r,
      last_valid_contact = sub_last_valid_contact r,
      most_overdue = sql_max (map sub_percent_overdue (filter (\<lambda>s. sub_id s = sub_id r) subs))\<rparr>"

text \<open>\<^verbatim>\<open>ORDER BY most_overdue DESC, name, percent_overdue DESC\<close>.\<close>

definition order_by :: "report_row \<Rightarrow> report_row \<Rightarrow> bool" where
  "order_by r s =
     (most_overdue s < most_overdue r
      \<or> (most_overdue s = most_overdue r
          \<and> (name r < name s \<or> (name r = name s \<and> percent_overdue s \<le> percent_overdue r))))"

definition list_query :: "(string \<Rightarrow> rat option) \<Rightarrow> rat \<Rightarrow> db \<Rightarrow> report_row list" where
  "list_query julianday now st =
     (let subs = subquery julianday now st
      in sort_by order_by (map (with_most_overdue subs) subs))"

subsection \<open>The line printed for a row\<close>

text \<open>
  The loop over the rows computes \<^verbatim>\<open>days\<close>, \<^verbatim>\<open>percent\<close>, \<^verbatim>\<open>format\<close> and
  \<^verbatim>\<open>last_contact_string\<close> and prints one line for each row. The heading of each friend and
  the history lines of \<^verbatim>\<open>print_history\<close> are not part of the model.
\<close>

definition days :: "report_row \<Rightarrow> int" where
  "days row = (case days_since row of Some d \<Rightarrow> d | None \<Rightarrow> 0)"

definition percent :: "report_row \<Rightarrow> int" where
  "percent row = (case percent_overdue row of Some p \<Rightarrow> trunc p | None \<Rightarrow> 100)"

definition format :: "report_row \<Rightarrow> string" where
  "format row =
     (if percent row \<ge> 100 then ''red''
      else if percent row \<ge> 75 then ''dark_orange''
      else if percent row \<ge> 50 then ''gold1''
      else ''green'')"

definition last_contact_string :: "report_row \<Rightarrow> string" where
  "last_contact_string row =
     (case last_valid_contact row of
        None \<Rightarrow> ''[red]No contacts logged[/red]''
      | Some d \<Rightarrow> d @ '' (['' @ format row @ '']'' @ show_int (days row) @ '' days ago: ''
                    @ show_int (percent row) @ ''%[/'' @ format row @ ''])'')"


section \<open>Runs of the program\<close>

text \<open>
  Every invocation opens the store, runs \<^verbatim>\<open>init_db\<close> (which creates the empty tables once)
  and one command. A command that raises leaves the store as it was; \<^verbatim>\<open>list\<close> only reads.
  \<open>run cmds\<close> is the store after the commands \<open>cmds\<close>, starting from the empty store.
\<close>

datatype command =
    Add string
  | Goal string Medium int
  | Rename string string
  | Contact string Medium string
  | List

definition commit :: "db \<Rightarrow> outcome \<Rightarrow> db" where
  "commit st res = (case res of Inl e \<Rightarrow> st | Inr (out, st') \<Rightarrow> st')"

fun exec :: "db \<Rightarrow> command \<Rightarrow> db" where
  "exec st (Add nm) = commit st (add st nm)"
| "exec st (Goal nm m n) = commit st (goal st nm m n)"
| "exec st (Rename nm new_name) = commit st (rename st nm new_name)"
| "exec st (Contact nm m d) = commit st (contact st nm m d)"
| "exec st List = st"

definition run :: "command list \<Rightarrow> db" where
  "run cmds = foldl exec init_db cmds"

section \<open>Auxiliary definitions\<close>

subsection \<open>The stores the program can reach\<close>

text \<open>
  What the schema of \<^verbatim>\<open>init_db\<close> enforces and the commands maintain: the keys and the names
  of \<open>friends\<close> are unique, \<^verbatim>\<open>(friend_id, medium)\<close> is a key of \<open>goals\<close>, every goal refers to
  a friend, and no goal has frequency 0.
\<close>

definition wf :: "db \<Rightarrow> bool" where
  "wf st =
     (distinct (map friend_id (friends st))
      \<and> distinct (map friend_name (friends st))
      \<and> distinct (map (\<lambda>g. (goal_friend_id g, goal_medium g)) (goals st))
      \<and> (\<forall>g \<in> set (goals st). goal_friend_id g \<in> friend_id ` set (friends st))
      \<and> (\<forall>g \<in> set (goals st). goal_frequency g \<noteq> 0))"

text \<open>
  The row that the inner \<^verbatim>\<open>SELECT\<close> computes for a friend and one of their goals, and the row
  of the report for them; \<open>pair_key\<close> is the key of \<^verbatim>\<open>GROUP BY f.id, g.medium\<close> on such a pair.
\<close>

definition goal_status :: "(string \<Rightarrow> rat option) \<Rightarrow> rat \<Rightarrow> db \<Rightarrow> friend_row \<Rightarrow> goal_row \<Rightarrow> sub_row" where
  "goal_status julianday now st f g =
     (let last = sql_max (map (\<lambda>c. Some (contact_date c)) (filter (contact_joins f g) (contacts st)));
          days = days_between julianday now last
      in \<lparr>sub_id = friend_id f, sub_name = friend_name f, sub_medium = goal_medium g,
          sub_frequency = goal_frequency g, sub_last_valid_contact = last,
          sub_days_since = days, sub_percent_overdue = percent_of days (goal_frequency g)\<rparr>)"

definition pair_key :: "friend_row \<times> goal_row \<Rightarrow> int \<times> Medium" where
  "pair_key p = (case p of (f, g) \<Rightarrow> (friend_id f, goal_medium g))"

definition row_of :: "(string \<Rightarrow> rat option) \<Rightarrow> rat \<Rightarrow> db \<Rightarrow> friend_row \<times> goal_row \<Rightarrow> report_row" where
  "row_of jd now st p = (case p of (f, g) \<Rightarrow> with_most_overdue (subquery jd now st) (goal_status jd now st f g))"

subsection \<open>The order of the media in the specification\<close>

text \<open>
  The specification orders the media by richness, \<^verbatim>\<open>text < talk < call < meet\<close>, and lets a
  contact count for a goal when its medium is at least as rich as the goal's. This is
  written here from those words, independently of \<open>medium_hierarchy\<close>: \<open>b\<close> is \<open>a\<close> or stands
  before \<open>a\<close> in the chain.
\<close>

definition spec_richness :: "Medium list" where
  "spec_richness = [Text, Talk, Call, Meet]"

definition spec_at_least_as_rich :: "Medium \<Rightarrow> Medium \<Rightarrow> bool" where
  "spec_at_least_as_rich a b = (b = a \<or> b \<in> set (takeWhile (\<lambda>m. m \<noteq> a) spec_richness))"

subsection \<open>Example runs\<close>

text \<open>
  The values of SQLite's \<^verbatim>\<open>julianday\<close> on the dates of the examples: midnight of 1 January
  2024 is day 2460310.5, a week later is 2460317.5, and a text that is no date (here
  \<^verbatim>\<open>soon\<close>) gives \<^verbatim>\<open>NULL\<close>.
\<close>

definition julianday_examples :: "string \<Rightarrow> rat option" where
  "julianday_examples s =
     (if s = ''2024-01-01'' then Some (4920621 / 2)
      else if s = ''2024-01-08'' then Some (4920635 / 2)
      else None)"


definition al_bo :: "command list" where
  "al_bo = [Add ''Al'', Add ''Bo'', Goal ''Al'' Text 7, Goal ''Bo'' Text 7,
            Contact ''Al'' Text ''2024-01-01'']"

definition negative_goal :: "command list" where
  "negative_goal = [Add ''Al'', Goal ''Al'' Call (- 5), Goal ''Al'' Text 3, Goal ''Al'' Text 0]"

definition bo_without_goal :: "command list" where
  "bo_without_goal = [Add ''Al'', Add ''Bo'', Goal ''Al'' Text 7, Goal ''Al'' Call 30,
                      Contact ''Bo'' Meet ''2024-01-01'']"

definition meet_for_call :: "command list" where
  "meet_for_call = [Add ''Al'', Goal ''Al'' Call 7, Contact ''Al'' Text ''2024-01-08'',
                    Contact ''Al'' Meet ''2024-01-01'']"


definition two_silent :: "command list" where
  "two_silent = [Add ''Cy'', Add ''Bo'', Add ''Al'', Goal ''Cy'' Text 7, Goal ''Bo'' Text 7,
                 Goal ''Al'' Text 7, Contact ''Al'' Text ''2024-01-01'']"



section \<open>Properties of the model\<close>

subsection \<open>Sorting\<close>

lemma mset_insort_by: "mset (insort_by le x xs) = add_mset x (mset xs)"
  by (induction xs) auto

lemma mset_sort_by: "mset (sort_by le xs) = mset xs"
  by (induction xs) (auto simp: sort_by_def mset_insort_by)

lemma set_sort_by: "set (sort_by le xs) = set xs"
  using mset_sort_by [of le xs] by (metis set_mset_mset)

lemma set_insort_by: "set (insort_by le x xs) = insert x (set xs)"
  using mset_insort_by [of le x xs] by (metis set_mset_mset set_mset_add_mset_insert)

lemma sorted_insort_by:
  assumes total: "\<And>a b. le a b \<or> le b a"
    and trans: "\<And>a b c. le a b \<Longrightarrow> le b c \<Longrightarrow> le a c"
  shows "sorted_wrt le xs \<Longrightarrow> sorted_wrt le (insort_by le x xs)"
proof (induction xs)
  case Nil
  then show ?case by simp
next
  case (Cons y ys)
  show ?case
  proof (cases "le x y")
    case True
    with Cons.prems show ?thesis by (auto intro: trans [of x y])
  next
    case False
    then have "le y x" using total by blast
    with Cons False show ?thesis by (auto simp: set_insort_by)
  qed
qed

lemma sorted_sort_by:
  assumes "\<And>a b. le a b \<or> le b a" and "\<And>a b c. le a b \<Longrightarrow> le b c \<Longrightarrow> le a c"
  shows "sorted_wrt le (sort_by le xs)"
proof (induction xs)
  case Nil
  show ?case by (simp add: sort_by_def)
next
  case (Cons x xs)
  have "sort_by le (x # xs) = insort_by le x (sort_by le xs)"
    by (simp add: sort_by_def)
  with Cons sorted_insort_by [of le, OF assms] show ?case by simp
qed

lemma order_by_total: "order_by a b \<or> order_by b a"
  unfolding order_by_def by auto

lemma order_by_trans: "order_by a b \<Longrightarrow> order_by b c \<Longrightarrow> order_by a c"
  unfolding order_by_def by (elim disjE conjE) auto

lemma sorted_list_query: "sorted_wrt order_by (list_query jd now st)"
  unfolding list_query_def Let_def
proof (rule sorted_sort_by)
  show "order_by a b \<or> order_by b a" for a b by (rule order_by_total)
  show "order_by a b \<Longrightarrow> order_by b c \<Longrightarrow> order_by a c" for a b c by (rule order_by_trans)
qed

lemma sorted_wrt_order_by_nth:
  assumes "i < j" and "j < length (list_query jd now st)"
  shows "order_by (list_query jd now st ! i) (list_query jd now st ! j)"
  using sorted_list_query assms by (rule sorted_wrt_nth_less)

subsection \<open>SQL maxima\<close>



lemma option_not_less_None: "\<not> (x::'a::linorder option) < None"
  by (cases x) simp_all


lemma sql_max_None_iff: "sql_max xs = None \<longleftrightarrow> (\<forall>x \<in> set xs. x = None)"
  by (induction xs rule: sql_max.induct) (auto split: option.splits)


lemma sql_max_map_Some_joined:
  "sql_max (map (\<lambda>(f, g, c). map_option contact_date c) (map (\<lambda>c. (f, g, Some c)) cs))
     = sql_max (map (\<lambda>c. Some (contact_date c)) cs)"
  by (simp add: comp_def)

subsection \<open>Grouping the join\<close>

text \<open>
  When the keys of the pairs are distinct, \<^verbatim>\<open>GROUP BY\<close> returns the rows of each pair as one
  group, so the inner \<^verbatim>\<open>SELECT\<close> has one row for each pair of a friend and a goal.
\<close>

lemma group_by_block:
  assumes "\<forall>y \<in> set xs. key y = key x" and "\<forall>y \<in> set ys. key y \<noteq> key x"
  shows "group_by key ((x # xs) @ ys) = (x, xs) # group_by key ys"
proof -
  have "filter (\<lambda>y. key y = key x) xs = xs" "filter (\<lambda>y. key y = key x) ys = []"
    using assms by (auto simp: filter_empty_conv filter_id_conv)
  moreover have "filter (\<lambda>y. key y \<noteq> key x) xs = []" "filter (\<lambda>y. key y \<noteq> key x) ys = ys"
    using assms by (auto simp: filter_empty_conv filter_id_conv)
  ultimately show ?thesis by simp
qed

lemma group_key_left_join:
  "y \<in> set (left_join_contacts st f g) \<Longrightarrow> group_key y = (friend_id f, goal_medium g)"
  by (auto simp: left_join_contacts_def group_key_def split: list.splits)

lemma aggregate_left_join:
  assumes "left_join_contacts st f g = x # xs"
  shows "aggregate jd now (x, xs) = goal_status jd now st f g"
proof (cases "filter (contact_joins f g) (contacts st)")
  case Nil
  with assms have "x = (f, g, None)" "xs = []"
    by (simp_all add: left_join_contacts_def)
  with Nil show ?thesis
    by (simp add: aggregate_def goal_status_def)
next
  case (Cons c cs)
  with assms have eq: "x # xs = map (\<lambda>c. (f, g, Some c)) (c # cs)"
    by (simp add: left_join_contacts_def)
  then have x: "x = (f, g, Some c)" by simp
  have "sql_max (map (\<lambda>(f, g, c). map_option contact_date c) (x # xs))
          = sql_max (map (\<lambda>c. Some (contact_date c)) (c # cs))"
    unfolding eq by (rule sql_max_map_Some_joined)
  then show ?thesis
    unfolding aggregate_def goal_status_def Cons x by (simp add: Let_def)
qed

lemma left_join_contacts_not_Nil: "left_join_contacts st f g \<noteq> []"
  by (simp add: left_join_contacts_def split: list.splits)

lemma group_key_concat_left_join:
  "y \<in> set (concat (map (\<lambda>(f, g). left_join_contacts st f g) ps)) \<Longrightarrow> group_key y \<in> pair_key ` set ps"
  by (auto simp: pair_key_def dest!: group_key_left_join)

lemma aggregate_group_by_joined:
  "distinct (map pair_key ps) \<Longrightarrow>
     map (aggregate jd now) (group_by group_key (concat (map (\<lambda>(f, g). left_join_contacts st f g) ps)))
       = map (\<lambda>(f, g). goal_status jd now st f g) ps"
proof (induction ps)
  case Nil
  show ?case by simp
next
  case (Cons p ps)
  obtain f g where p: "p = (f, g)" by (cases p)
  obtain x xs where ljc: "left_join_contacts st f g = x # xs"
    using left_join_contacts_not_Nil [of st f g] by (cases "left_join_contacts st f g") auto
  let ?rest = "concat (map (\<lambda>(f, g). left_join_contacts st f g) ps)"
  have kx: "group_key x = pair_key p"
    using group_key_left_join [of x st f g] ljc by (simp add: p pair_key_def)
  have same: "\<forall>y \<in> set xs. group_key y = group_key x"
    using group_key_left_join [of _ st f g] ljc kx by (simp add: p pair_key_def)
  have other: "\<forall>y \<in> set ?rest. group_key y \<noteq> group_key x"
  proof
    fix y assume "y \<in> set ?rest"
    then have "group_key y \<in> pair_key ` set ps" by (rule group_key_concat_left_join)
    with Cons.prems kx show "group_key y \<noteq> group_key x" by auto
  qed
  have "group_by group_key (concat (map (\<lambda>(f, g). left_join_contacts st f g) (p # ps)))
          = (x, xs) # group_by group_key ?rest"
    using group_by_block [OF same other] by (simp add: p ljc)
  moreover have "map (aggregate jd now) (group_by group_key ?rest)
                   = map (\<lambda>(f, g). goal_status jd now st f g) ps"
    using Cons by simp
  ultimately show ?case
    using aggregate_left_join [OF ljc, of jd now] by (simp add: p)
qed

lemma distinct_friend_goals_aux:
  assumes gs: "distinct (map (\<lambda>g. (goal_friend_id g, goal_medium g)) gs)"
  shows "distinct (map friend_id fs) \<Longrightarrow>
     distinct (map pair_key (concat (map (\<lambda>f. map (\<lambda>g. (f, g))
        (filter (\<lambda>g. friend_id f = goal_friend_id g) gs)) fs)))"
proof (induction fs)
  case Nil
  show ?case by simp
next
  case (Cons f fs)
  let ?mine = "map (\<lambda>g. (f, g)) (filter (\<lambda>g. friend_id f = goal_friend_id g) gs)"
  have "map pair_key ?mine
          = map (\<lambda>g. (goal_friend_id g, goal_medium g)) (filter (\<lambda>g. friend_id f = goal_friend_id g) gs)"
    by (simp add: pair_key_def comp_def)
  moreover have "distinct (map (\<lambda>g. (goal_friend_id g, goal_medium g))
                      (filter (\<lambda>g. friend_id f = goal_friend_id g) gs))"
    using gs by (rule distinct_map_filter)
  ultimately have d1: "distinct (map pair_key ?mine)"
    by (simp only:)
  have fst_mine: "fst k = friend_id f" if "k \<in> set (map pair_key ?mine)" for k
    using that by (auto simp: pair_key_def)
  have fst_rest: "fst k \<in> friend_id ` set fs"
    if "k \<in> set (map pair_key (concat (map (\<lambda>f. map (\<lambda>g. (f, g))
        (filter (\<lambda>g. friend_id f = goal_friend_id g) gs)) fs)))" for k
  proof -
    from that obtain f' g' where "f' \<in> set fs" "k = pair_key (f', g')"
      by auto
    then show ?thesis by (simp add: pair_key_def)
  qed
  have notin: "friend_id f \<notin> friend_id ` set fs" using Cons.prems by simp
  have disj: "set (map pair_key ?mine) \<inter>
     set (map pair_key (concat (map (\<lambda>f. map (\<lambda>g. (f, g))
        (filter (\<lambda>g. friend_id f = goal_friend_id g) gs)) fs))) = {}"
  proof (rule ccontr)
    assume "\<not> ?thesis"
    then obtain k where k1: "k \<in> set (map pair_key ?mine)"
      and k2: "k \<in> set (map pair_key (concat (map (\<lambda>f. map (\<lambda>g. (f, g))
        (filter (\<lambda>g. friend_id f = goal_friend_id g) gs)) fs)))"
      by blast
    from fst_mine [OF k1] fst_rest [OF k2] notin show False by simp
  qed
  from Cons d1 disj show ?case by simp
qed

lemma distinct_friend_goals: "wf st \<Longrightarrow> distinct (map pair_key (friend_goals st))"
  unfolding friend_goals_def by (rule distinct_friend_goals_aux) (simp_all add: wf_def)

lemma subquery_wf:
  "wf st \<Longrightarrow> subquery jd now st = map (\<lambda>(f, g). goal_status jd now st f g) (friend_goals st)"
  unfolding subquery_def joined_def
  by (rule aggregate_group_by_joined) (rule distinct_friend_goals)

lemma friend_goals_iff:
  "(f, g) \<in> set (friend_goals st)
     \<longleftrightarrow> f \<in> set (friends st) \<and> g \<in> set (goals st) \<and> friend_id f = goal_friend_id g"
  by (auto simp: friend_goals_def)

subsection \<open>The invariant\<close>

lemma fold_max_ge_init: "(s::int) \<le> fold max xs s"
proof (induction xs arbitrary: s)
  case Nil
  show ?case by simp
next
  case (Cons x xs)
  have "s \<le> max x s" by simp
  also have "\<dots> \<le> fold max xs (max x s)" by (rule Cons.IH)
  finally show ?case by simp
qed

lemma fold_max_ge_elem: "x \<in> set xs \<Longrightarrow> x \<le> fold max xs (s::int)"
proof (induction xs arbitrary: s)
  case Nil
  then show ?case by simp
next
  case (Cons y ys)
  show ?case
  proof (cases "x = y")
    case True
    have "x \<le> max y s" using True by simp
    also have "\<dots> \<le> fold max ys (max y s)" by (rule fold_max_ge_init)
    finally show ?thesis by simp
  next
    case False
    with Cons.prems have "x \<in> set ys" by simp
    then show ?thesis using Cons.IH by simp
  qed
qed

lemma next_rowid_fresh: "next_rowid s ids \<notin> set ids"
proof
  assume "next_rowid s ids \<in> set ids"
  then have "next_rowid s ids \<le> fold max ids s" by (rule fold_max_ge_elem)
  then show False by (simp add: next_rowid_def)
qed

lemma select_friend_Some:
  "select_friend st nm = Some f \<Longrightarrow> f \<in> set (friends st) \<and> friend_name f = nm"
  unfolding select_friend_def by (auto simp: find_Some_iff)

lemma select_friend_None:
  "select_friend st nm = None \<longleftrightarrow> nm \<notin> set (map friend_name (friends st))"
  unfolding select_friend_def by (auto simp: find_None_iff)


lemma wf_init_db: "wf init_db"
  by (simp add: wf_def init_db_def)

lemma wf_add: "wf st \<Longrightarrow> add st nm = Inr (out, st') \<Longrightarrow> wf st'"
  using next_rowid_fresh [of "friends_seq st" "map friend_id (friends st)"]
  by (auto simp: wf_def add_def Let_def split: if_splits)

lemma upsert_goal_keys:
  "map (\<lambda>g. (goal_friend_id g, goal_medium g)) (upsert_goal g gs)
     = (if (goal_friend_id g, goal_medium g) \<in> set (map (\<lambda>g. (goal_friend_id g, goal_medium g)) gs)
        then map (\<lambda>g. (goal_friend_id g, goal_medium g)) gs
        else map (\<lambda>g. (goal_friend_id g, goal_medium g)) gs @ [(goal_friend_id g, goal_medium g)])"
proof -
  have ex: "list_ex (\<lambda>h. goal_friend_id h = goal_friend_id g \<and> goal_medium h = goal_medium g) gs
          \<longleftrightarrow> (goal_friend_id g, goal_medium g) \<in> set (map (\<lambda>g. (goal_friend_id g, goal_medium g)) gs)"
    by (auto simp: list_ex_iff intro: rev_image_eqI)
  have upd: "map (\<lambda>g. (goal_friend_id g, goal_medium g))
               (map (\<lambda>h. if goal_friend_id h = goal_friend_id g \<and> goal_medium h = goal_medium g
                     then h\<lparr>goal_frequency := goal_frequency g\<rparr> else h) gs)
             = map (\<lambda>g. (goal_friend_id g, goal_medium g)) gs"
    by (induction gs) auto
  show ?thesis
    unfolding upsert_goal_def ex using upd by simp
qed

lemma set_upsert_goal:
  "h \<in> set (upsert_goal g gs) \<Longrightarrow>
     (goal_friend_id h = goal_friend_id g \<and> goal_medium h = goal_medium g
        \<and> goal_frequency h = goal_frequency g) \<or> h \<in> set gs"
  by (auto simp: upsert_goal_def split: if_splits)

lemma upsert_goal_member:
  "\<lparr>goal_friend_id = i, goal_medium = m, goal_frequency = n\<rparr>
     \<in> set (upsert_goal \<lparr>goal_friend_id = i, goal_medium = m, goal_frequency = n\<rparr> gs)"
proof (cases "list_ex (\<lambda>h. goal_friend_id h = i \<and> goal_medium h = m) gs")
  case True
  then obtain h where h: "h \<in> set gs" "goal_friend_id h = i" "goal_medium h = m"
    by (auto simp: list_ex_iff)
  have "h\<lparr>goal_frequency := n\<rparr> = \<lparr>goal_friend_id = i, goal_medium = m, goal_frequency = n\<rparr>"
    using h(2,3) by (cases h) simp
  with h True show ?thesis
    by (force simp: upsert_goal_def)
next
  case False
  then show ?thesis by (simp add: upsert_goal_def)
qed

lemma wf_goal:
  assumes "wf st" and "goal st nm m n = Inr (out, st')"
  shows "wf st'"
proof (cases "select_friend st nm")
  case None
  with assms show ?thesis by (simp add: goal_def)
next
  case (Some f)
  then have f: "f \<in> set (friends st)" by (simp add: select_friend_Some)
  show ?thesis
  proof (cases "n = 0")
    case True
    with assms Some have st': "st' = st\<lparr>goals := filter (\<lambda>g. \<not> (goal_friend_id g = friend_id f
                                                \<and> goal_medium g = m)) (goals st)\<rparr>"
      by (simp add: goal_def)
    have "distinct (map (\<lambda>g. (goal_friend_id g, goal_medium g)) (goals st'))"
      unfolding st' using assms(1) by (simp add: wf_def distinct_map_filter)
    then show ?thesis using assms(1) by (simp add: wf_def st')
  next
    case False
    let ?g = "\<lparr>goal_friend_id = friend_id f, goal_medium = m, goal_frequency = n\<rparr>"
    from False assms Some have st': "st' = st\<lparr>goals := upsert_goal ?g (goals st)\<rparr>"
      by (simp add: goal_def split: if_splits)
    have d: "distinct (map (\<lambda>g. (goal_friend_id g, goal_medium g)) (goals st'))"
      unfolding st' using assms(1) by (simp add: wf_def upsert_goal_keys)
    have fk: "goal_friend_id h \<in> friend_id ` set (friends st) \<and> goal_frequency h \<noteq> 0"
      if "h \<in> set (upsert_goal ?g (goals st))" for h
      using set_upsert_goal [OF that] assms(1) f False by (auto simp: wf_def)
    show ?thesis
      using assms(1) d fk by (simp add: wf_def st')
  qed
qed

lemma rename_friend_ids:
  "map friend_id (map (\<lambda>f. if friend_name f = nm then f\<lparr>friend_name := new_name\<rparr> else f) fs)
     = map friend_id fs"
  by (induction fs) auto




lemma wf_rename:
  assumes "wf st" and "rename st nm new_name = Inr (out, st')"
  shows "wf st'"
proof (cases "select_friend st nm")
  case None
  with assms show ?thesis by (simp add: rename_def)
next
  case (Some f)
  let ?fs = "map (\<lambda>f. if friend_name f = nm then f\<lparr>friend_name := new_name\<rparr> else f) (friends st)"
  from assms Some have st': "st' = st\<lparr>friends := ?fs\<rparr>" and d: "distinct (map friend_name ?fs)"
    by (simp_all add: rename_def Let_def split: if_splits)
  from st' have fr: "friends st' = ?fs" and go: "goals st' = goals st"
    by simp_all
  have ids: "map friend_id ?fs = map friend_id (friends st)"
    by (rule rename_friend_ids)
  have "set (map friend_id ?fs) = set (map friend_id (friends st))"
    by (simp only: ids)
  then have img: "friend_id ` set ?fs = friend_id ` set (friends st)"
    by (simp only: set_map)
  have "distinct (map friend_id ?fs)"
    using assms(1) unfolding ids wf_def by blast
  moreover have "\<forall>g \<in> set (goals st). goal_friend_id g \<in> friend_id ` set ?fs"
    using assms(1) unfolding img wf_def by blast
  ultimately show ?thesis
    using assms(1) d unfolding wf_def fr go by blast
qed

lemma wf_contact: "wf st \<Longrightarrow> contact st nm m d = Inr (out, st') \<Longrightarrow> wf st'"
  by (auto simp: wf_def contact_def Let_def split: option.splits)

lemma wf_exec: "wf st \<Longrightarrow> wf (exec st c)"
proof (cases c)
  case (Add nm)
  assume "wf st" then show ?thesis
    unfolding Add by (cases "add st nm") (auto simp: commit_def dest: wf_add)
next
  case (Goal nm m n)
  assume "wf st" then show ?thesis
    unfolding Goal by (cases "goal st nm m n") (auto simp: commit_def dest: wf_goal)
next
  case (Rename nm new_name)
  assume "wf st" then show ?thesis
    unfolding Rename by (cases "rename st nm new_name") (auto simp: commit_def dest: wf_rename)
next
  case (Contact nm m d)
  assume "wf st" then show ?thesis
    unfolding Contact by (cases "contact st nm m d") (auto simp: commit_def dest: wf_contact)
next
  case List
  assume "wf st" then show ?thesis unfolding List by simp
qed

lemma wf_foldl_exec: "wf st \<Longrightarrow> wf (foldl exec st cmds)"
  by (induction cmds arbitrary: st) (simp_all add: wf_exec)

lemma wf_run: "wf (run cmds)"
  unfolding run_def by (rule wf_foldl_exec) (rule wf_init_db)

lemma run_snoc: "run (cmds @ [c]) = exec (run cmds) c"
  by (simp add: run_def)

lemma goal_nonzero_stores:
  assumes "select_friend st nm = Some f" and "n \<noteq> 0" and "- (2 ^ 63) \<le> n" and "n < 2 ^ 63"
  shows "\<lparr>goal_friend_id = friend_id f, goal_medium = m, goal_frequency = n\<rparr>
           \<in> set (goals (exec st (Goal nm m n)))"
  using assms upsert_goal_member [of "friend_id f" m n "goals st"]
  by (simp add: goal_def commit_def)

lemma contact_unknown:
  "nm \<notin> set (map friend_name (friends st)) \<Longrightarrow>
     contact st nm m d = Inl (IntegrityError ''NOT NULL constraint failed: contacts.friend_id'')"
  using select_friend_None [of st nm] by (simp add: contact_def)

lemma same_name_same_friend:
  assumes "wf st" and "f \<in> set (friends st)" and "f' \<in> set (friends st)"
    and "friend_name f = friend_name f'"
  shows "f = f'"
proof -
  from assms(1) have "inj_on friend_name (set (friends st))"
    by (simp add: wf_def distinct_map)
  with assms(2-4) show ?thesis by (simp add: inj_on_def)
qed

lemma same_id_same_friend:
  assumes "wf st" and "f \<in> set (friends st)" and "f' \<in> set (friends st)"
    and "friend_id f = friend_id f'"
  shows "f = f'"
proof -
  from assms(1) have "inj_on friend_id (set (friends st))"
    by (simp add: wf_def distinct_map)
  with assms(2-4) show ?thesis by (simp add: inj_on_def)
qed

subsection \<open>The rows of the report\<close>

lemma mset_list_query:
  "wf st \<Longrightarrow> mset (list_query jd now st) = mset (map (row_of jd now st) (friend_goals st))"
proof -
  assume "wf st"
  then have "subquery jd now st = map (\<lambda>(f, g). goal_status jd now st f g) (friend_goals st)"
    by (rule subquery_wf)
  then have "map (with_most_overdue (subquery jd now st)) (subquery jd now st)
               = map (row_of jd now st) (friend_goals st)"
    by (simp add: row_of_def split_def)
  then show ?thesis
    unfolding list_query_def Let_def by (simp only: mset_sort_by)
qed

lemma set_list_query:
  "wf st \<Longrightarrow> set (list_query jd now st) = row_of jd now st ` set (friend_goals st)"
  using mset_list_query [of st jd now] by (metis set_mset_mset set_map)

lemma row_of_simps:
  "name (row_of jd now st (f, g)) = friend_name f"
  "medium (row_of jd now st (f, g)) = goal_medium g"
  "frequency (row_of jd now st (f, g)) = goal_frequency g"
  "last_valid_contact (row_of jd now st (f, g))
     = sql_max (map (\<lambda>c. Some (contact_date c)) (filter (contact_joins f g) (contacts st)))"
  "days_since (row_of jd now st (f, g)) = days_between jd now (last_valid_contact (row_of jd now st (f, g)))"
  "percent_overdue (row_of jd now st (f, g))
     = percent_of (days_since (row_of jd now st (f, g))) (goal_frequency g)"
  by (simp_all add: row_of_def with_most_overdue_def goal_status_def Let_def)

lemma row_in_list_query:
  assumes "wf st" and "r \<in> set (list_query jd now st)"
  obtains f g where "f \<in> set (friends st)" and "g \<in> set (goals st)"
    and "friend_id f = goal_friend_id g" and "r = row_of jd now st (f, g)"
proof -
  from assms have "r \<in> row_of jd now st ` set (friend_goals st)"
    by (simp add: set_list_query)
  then obtain f g where fg: "(f, g) \<in> set (friend_goals st)" and r: "r = row_of jd now st (f, g)"
    by auto
  from fg have "f \<in> set (friends st)" "g \<in> set (goals st)" "friend_id f = goal_friend_id g"
    by (simp_all add: friend_goals_iff)
  then show ?thesis using r by (rule that)
qed

lemma row_of_in_list_query:
  assumes "f \<in> set (friends (run cmds))" and "g \<in> set (goals (run cmds))"
    and "goal_friend_id g = friend_id f"
  shows "row_of jd now (run cmds) (f, g) \<in> set (list_query jd now (run cmds))"
proof -
  from assms have "(f, g) \<in> set (friend_goals (run cmds))" by (simp add: friend_goals_iff)
  then show ?thesis by (simp add: set_list_query [OF wf_run])
qed

lemma percent_of_None: "freq \<noteq> 0 \<Longrightarrow> percent_of d freq = None \<longleftrightarrow> d = None"
  by (simp add: percent_of_def split: option.splits)


lemma contact_joins_iff:
  "contact_joins f g c \<longleftrightarrow>
     friend_id f = contact_friend_id c \<and> spec_at_least_as_rich (contact_medium c) (goal_medium g)"
  by (cases "contact_medium c"; cases "goal_medium g")
     (simp_all add: contact_joins_def medium_hierarchy_def spec_at_least_as_rich_def spec_richness_def)

lemma distinct_map_coarser:
  assumes "distinct (map k xs)" and "\<And>x y. x \<in> set xs \<Longrightarrow> y \<in> set xs \<Longrightarrow> k' x = k' y \<Longrightarrow> k x = k y"
  shows "distinct (map k' xs)"
proof -
  from assms(1) have d: "distinct xs" and inj: "inj_on k (set xs)"
    by (simp_all add: distinct_map)
  have "inj_on k' (set xs)"
  proof (rule inj_onI)
    fix x y assume "x \<in> set xs" "y \<in> set xs" "k' x = k' y"
    with assms(2) have "k x = k y" by blast
    with inj \<open>x \<in> set xs\<close> \<open>y \<in> set xs\<close> show "x = y" by (simp add: inj_on_def)
  qed
  with d show ?thesis by (simp add: distinct_map)
qed

lemma distinct_friend_goal_names:
  assumes "wf st"
  shows "distinct (map (\<lambda>(f, g). (friend_name f, goal_medium g)) (friend_goals st))"
proof (rule distinct_map_coarser [OF distinct_friend_goals [OF assms]])
  fix x y assume x: "x \<in> set (friend_goals st)" and y: "y \<in> set (friend_goals st)"
    and eq: "(case x of (f, g) \<Rightarrow> (friend_name f, goal_medium g))
               = (case y of (f, g) \<Rightarrow> (friend_name f, goal_medium g))"
  obtain f g where xfg: "x = (f, g)" by (cases x)
  obtain f' g' where yfg: "y = (f', g')" by (cases y)
  from x y have "f \<in> set (friends st)" "f' \<in> set (friends st)"
    by (simp_all add: xfg yfg friend_goals_iff)
  moreover from eq have "friend_name f = friend_name f'" "goal_medium g = goal_medium g'"
    by (simp_all add: xfg yfg)
  ultimately show "pair_key x = pair_key y"
    using same_name_same_friend [OF assms, of f f'] by (simp add: xfg yfg pair_key_def)
qed

lemma length_friend_goals_aux:
  "distinct (map friend_id fs) \<Longrightarrow> \<forall>g \<in> set gs. goal_friend_id g \<in> friend_id ` set fs \<Longrightarrow>
     length (concat (map (\<lambda>f. map (\<lambda>g. (f, g)) (filter (\<lambda>g. friend_id f = goal_friend_id g) gs)) fs))
       = length gs"
proof (induction fs arbitrary: gs)
  case Nil
  then show ?case by simp
next
  case (Cons f fs)
  let ?other = "filter (\<lambda>g. friend_id f \<noteq> goal_friend_id g) gs"
  have same: "filter (\<lambda>g. friend_id f' = goal_friend_id g) gs
                = filter (\<lambda>g. friend_id f' = goal_friend_id g) ?other" if "f' \<in> set fs" for f'
  proof -
    have "friend_id f' \<noteq> friend_id f"
    proof
      assume e: "friend_id f' = friend_id f"
      from that have "friend_id f' \<in> friend_id ` set fs" by (rule imageI)
      with e Cons.prems(1) show False by simp
    qed
    then have "filter (\<lambda>g. friend_id f \<noteq> goal_friend_id g \<and> friend_id f' = goal_friend_id g) gs
                 = filter (\<lambda>g. friend_id f' = goal_friend_id g) gs"
      by (intro filter_cong) auto
    then show ?thesis by simp
  qed
  have "concat (map (\<lambda>f. map (\<lambda>g. (f, g)) (filter (\<lambda>g. friend_id f = goal_friend_id g) gs)) fs)
          = concat (map (\<lambda>f. map (\<lambda>g. (f, g)) (filter (\<lambda>g. friend_id f = goal_friend_id g) ?other)) fs)"
    using same by (simp cong: map_cong)
  moreover have "\<forall>g \<in> set ?other. goal_friend_id g \<in> friend_id ` set fs"
    using Cons.prems(2) by auto
  moreover have "distinct (map friend_id fs)" using Cons.prems(1) by simp
  ultimately have "length (concat (map (\<lambda>f. map (\<lambda>g. (f, g))
                     (filter (\<lambda>g. friend_id f = goal_friend_id g) gs)) fs)) = length ?other"
    using Cons.IH [of ?other] by simp
  moreover have "length (filter (\<lambda>g. friend_id f = goal_friend_id g) gs) + length ?other = length gs"
    by (rule sum_length_filter_compl)
  ultimately show ?case by simp
qed

lemma length_friend_goals: "wf st \<Longrightarrow> length (friend_goals st) = length (goals st)"
  unfolding friend_goals_def by (rule length_friend_goals_aux) (simp_all add: wf_def)

lemma length_list_query: "wf st \<Longrightarrow> length (list_query jd now st) = length (goals st)"
proof -
  assume wf: "wf st"
  have "size (mset (list_query jd now st)) = size (mset (map (row_of jd now st) (friend_goals st)))"
    using mset_list_query [OF wf, of jd now] by simp
  then show ?thesis using length_friend_goals [OF wf] by simp
qed

lemma distinct_list_query_keys:
  assumes "wf st"
  shows "distinct (map (\<lambda>r. (name r, medium r)) (list_query jd now st))"
proof -
  have "mset (map (\<lambda>r. (name r, medium r)) (list_query jd now st))
          = mset (map (\<lambda>r. (name r, medium r)) (map (row_of jd now st) (friend_goals st)))"
    using mset_list_query [OF assms, of jd now] by (simp only: mset_map)
  moreover have "map (\<lambda>r. (name r, medium r)) (map (row_of jd now st) (friend_goals st))
                   = map (\<lambda>(f, g). (friend_name f, goal_medium g)) (friend_goals st)"
    by (auto simp: row_of_simps)
  ultimately have "mset (map (\<lambda>r. (name r, medium r)) (list_query jd now st))
          = mset (map (\<lambda>(f, g). (friend_name f, goal_medium g)) (friend_goals st))"
    by (simp only:)
  from mset_eq_imp_distinct_iff [OF this] distinct_friend_goal_names [OF assms]
  show ?thesis by (rule iffD2)
qed

lemma most_overdue_row_of:
  assumes "wf st"
  shows "most_overdue (row_of jd now st (f, g))
           = sql_max (map (\<lambda>p. percent_overdue (row_of jd now st p))
               (filter (\<lambda>p. friend_id (fst p) = friend_id f) (friend_goals st)))"
proof -
  have sub: "subquery jd now st = map (\<lambda>(f, g). goal_status jd now st f g) (friend_goals st)"
    using assms by (rule subquery_wf)
  have "most_overdue (row_of jd now st (f, g))
          = sql_max (map sub_percent_overdue
              (filter (\<lambda>s. sub_id s = friend_id f) (subquery jd now st)))"
    by (simp add: row_of_def with_most_overdue_def goal_status_def Let_def)
  also have "filter (\<lambda>s. sub_id s = friend_id f) (subquery jd now st)
               = map (\<lambda>(f, g). goal_status jd now st f g)
                   (filter (\<lambda>p. friend_id (fst p) = friend_id f) (friend_goals st))"
    unfolding sub filter_map
    by (rule arg_cong [where f = "map _"], rule filter_cong)
       (auto simp: goal_status_def Let_def)
  also have "map sub_percent_overdue (map (\<lambda>(f, g). goal_status jd now st f g)
                   (filter (\<lambda>p. friend_id (fst p) = friend_id f) (friend_goals st)))
               = map (\<lambda>p. percent_overdue (row_of jd now st p))
                   (filter (\<lambda>p. friend_id (fst p) = friend_id f) (friend_goals st))"
    by (auto simp: row_of_def with_most_overdue_def)
  finally show ?thesis .
qed




section \<open>The claims\<close>

text \<open>
  In the statements below \<open>run cmds\<close> is the store after any sequence of commands from the
  empty store, \<open>jd\<close> is \<^verbatim>\<open>julianday\<close> on stored dates and \<open>now\<close> is
  \<^verbatim>\<open>julianday('now', 'localtime')\<close>.
\<close>

subsection \<open>C1: the medium hierarchy\<close>

text \<open>
  Claim C1. For every friend, goal and contact event, the contact counts toward the goal
  (it is eligible to be the goal's last valid contact in the report) if and only if its
  medium is at least as rich as the goal's under \<^verbatim>\<open>text < talk < call < meet\<close>; a
  \<^verbatim>\<open>meet\<close> contact satisfies goals of every medium and a \<^verbatim>\<open>text\<close> contact only
  \<^verbatim>\<open>text\<close> goals.

  The report has a row for the friend and the goal whose last valid contact is the greatest
  date among exactly the friend's contacts that are at least as rich as the goal, in the
  order of the specification; the condition of the join is that relation.
\<close>

theorem contact_counts_iff_rich_enough:
  assumes "f \<in> set (friends (run cmds))" and "g \<in> set (goals (run cmds))"
    and "goal_friend_id g = friend_id f"
  shows "(\<exists>r \<in> set (list_query jd now (run cmds)).
            name r = friend_name f \<and> medium r = goal_medium g
            \<and> last_valid_contact r
                = sql_max (map (\<lambda>c. Some (contact_date c))
                    (filter (\<lambda>c. contact_friend_id c = friend_id f
                                  \<and> spec_at_least_as_rich (contact_medium c) (goal_medium g))
                       (contacts (run cmds)))))
     \<and> (\<forall>c. contact_joins f g c
            \<longleftrightarrow> contact_friend_id c = friend_id f
                 \<and> spec_at_least_as_rich (contact_medium c) (goal_medium g))
     \<and> (\<forall>c. contact_friend_id c = friend_id f \<and> contact_medium c = Meet \<longrightarrow> contact_joins f g c)
     \<and> (\<forall>c. contact_medium c = Text
            \<longrightarrow> (contact_joins f g c \<longleftrightarrow> contact_friend_id c = friend_id f \<and> goal_medium g = Text))"
proof (intro conjI allI impI)
  let ?st = "run cmds"
  have joins: "contact_joins f g = (\<lambda>c. contact_friend_id c = friend_id f
                  \<and> spec_at_least_as_rich (contact_medium c) (goal_medium g))"
    by (auto simp: contact_joins_iff)
  from assms have "(f, g) \<in> set (friend_goals ?st)" by (simp add: friend_goals_iff)
  then have "row_of jd now ?st (f, g) \<in> set (list_query jd now ?st)"
    by (simp add: set_list_query [OF wf_run])
  moreover have "last_valid_contact (row_of jd now ?st (f, g))
      = sql_max (map (\<lambda>c. Some (contact_date c))
          (filter (\<lambda>c. contact_friend_id c = friend_id f
                        \<and> spec_at_least_as_rich (contact_medium c) (goal_medium g)) (contacts ?st)))"
    unfolding row_of_simps joins by (rule refl)
  ultimately show "\<exists>r \<in> set (list_query jd now ?st).
            name r = friend_name f \<and> medium r = goal_medium g
            \<and> last_valid_contact r
                = sql_max (map (\<lambda>c. Some (contact_date c))
                    (filter (\<lambda>c. contact_friend_id c = friend_id f
                                  \<and> spec_at_least_as_rich (contact_medium c) (goal_medium g))
                       (contacts ?st)))"
    by (intro bexI [of _ "row_of jd now ?st (f, g)"]) (simp_all add: row_of_simps(1,2))
  show "contact_joins f g c \<longleftrightarrow> contact_friend_id c = friend_id f
          \<and> spec_at_least_as_rich (contact_medium c) (goal_medium g)" for c
    by (auto simp: contact_joins_iff)
  show "contact_joins f g c" if "contact_friend_id c = friend_id f \<and> contact_medium c = Meet" for c
    using that by (cases "goal_medium g") (simp_all add: contact_joins_def medium_hierarchy_def)
  show "contact_joins f g c \<longleftrightarrow> contact_friend_id c = friend_id f \<and> goal_medium g = Text"
    if "contact_medium c = Text" for c
    using that by (cases "goal_medium g") (auto simp: contact_joins_def medium_hierarchy_def)
qed

text \<open>
  A run with a \<^verbatim>\<open>call\<close> goal: the later \<^verbatim>\<open>text\<close> contact does not count, the earlier
  \<^verbatim>\<open>meet\<close> contact does.
\<close>

theorem contact_counts_iff_rich_enough_witness:
  "\<lparr>friend_id = 1, friend_name = ''Al''\<rparr> \<in> set (friends (run meet_for_call))
   \<and> \<lparr>goal_friend_id = 1, goal_medium = Call, goal_frequency = 7\<rparr> \<in> set (goals (run meet_for_call))
   \<and> (\<exists>r. r \<in> set (list_query julianday_examples 0 (run meet_for_call))
          \<and> name r = ''Al'' \<and> medium r = Call \<and> last_valid_contact r = Some ''2024-01-01'')"
proof -
  let ?f = "\<lparr>friend_id = 1, friend_name = ''Al''\<rparr>"
  let ?g = "\<lparr>goal_friend_id = 1, goal_medium = Call, goal_frequency = 7\<rparr>"
  have fs: "friends (run meet_for_call) = [?f]"
    by code_simp
  have gs: "goals (run meet_for_call) = [?g]"
    by code_simp
  have cs: "contacts (run meet_for_call)
              = [\<lparr>contact_id = 1, contact_friend_id = 1, contact_date = ''2024-01-08'', contact_medium = Text\<rparr>,
                 \<lparr>contact_id = 2, contact_friend_id = 1, contact_date = ''2024-01-01'', contact_medium = Meet\<rparr>]"
    by code_simp
  have f: "?f \<in> set (friends (run meet_for_call))" unfolding fs by simp
  have g: "?g \<in> set (goals (run meet_for_call))" unfolding gs by simp
  have ids: "goal_friend_id ?g = friend_id ?f" by simp
  have last: "sql_max (map (\<lambda>c. Some (contact_date c))
                (filter (\<lambda>c. contact_friend_id c = friend_id ?f
                              \<and> spec_at_least_as_rich (contact_medium c) (goal_medium ?g))
                   (contacts (run meet_for_call)))) = Some ''2024-01-01''"
    unfolding cs by (simp add: spec_at_least_as_rich_def spec_richness_def)
  from contact_counts_iff_rich_enough [OF f g ids, of julianday_examples 0]
  have "\<exists>r \<in> set (list_query julianday_examples 0 (run meet_for_call)).
            name r = friend_name ?f \<and> medium r = goal_medium ?g
            \<and> last_valid_contact r
                = sql_max (map (\<lambda>c. Some (contact_date c))
                    (filter (\<lambda>c. contact_friend_id c = friend_id ?f
                                  \<and> spec_at_least_as_rich (contact_medium c) (goal_medium ?g))
                       (contacts (run meet_for_call))))"
    by (rule conjunct1)
  then have "\<exists>r. r \<in> set (list_query julianday_examples 0 (run meet_for_call))
          \<and> name r = ''Al'' \<and> medium r = Call \<and> last_valid_contact r = Some ''2024-01-01''"
    unfolding last by (simp add: Bex_def)
  with f g show ?thesis by (intro conjI)
qed

subsection \<open>C2: goals without a qualifying contact\<close>

text \<open>
  Claim C2 says that a goal without a qualifying contact is shown as "no contacts logged",
  that its percentage counts as 100 and its days as 0 for sorting, and that a friend whose
  goals all lack qualifying contacts therefore sorts as maximally overdue, ties broken by
  name. The defaults 100 and 0 are set by the loop that prints the rows, after the query
  has sorted them; the query sorts the \<^verbatim>\<open>NULL\<close> percentage, which SQLite orders below
  every number. Below, Bo has no contact and is listed after Al, who is at 57 percent.
\<close>

theorem never_contacted_counterexample:
  "map name (list_query julianday_examples (4920629 / 2) (run al_bo)) = [''Al'', ''Bo'']
   \<and> map percent (list_query julianday_examples (4920629 / 2) (run al_bo)) = [57, 100]
   \<and> map last_contact_string (list_query julianday_examples (4920629 / 2) (run al_bo))
       = [''2024-01-01 ([gold1]4 days ago: 57%[/gold1])'', ''[red]No contacts logged[/red]'']"
  by code_simp

text \<open>
  Claim C2 as amended. For every friend and goal with no qualifying contact the report has
  the row of the pair, printed as \<^verbatim>\<open>No contacts logged\<close>; the printing loop takes its days
  as 0 and its percentage as 100, and its \<^verbatim>\<open>percent_overdue\<close> in the query is \<^verbatim>\<open>NULL\<close>.
  When all goals of the friend lack qualifying contacts, \<^verbatim>\<open>most_overdue\<close> is \<^verbatim>\<open>NULL\<close>. Rows
  whose \<^verbatim>\<open>most_overdue\<close> is \<^verbatim>\<open>NULL\<close> come after all other rows, in ascending order of
  name.
\<close>

theorem never_contacted_listed_last:
  assumes "f \<in> set (friends (run cmds))" and "g \<in> set (goals (run cmds))"
    and "goal_friend_id g = friend_id f"
    and "\<forall>c \<in> set (contacts (run cmds)). \<not> contact_joins f g c"
  shows "(\<exists>r \<in> set (list_query jd now (run cmds)).
            name r = friend_name f \<and> medium r = goal_medium g
            \<and> last_contact_string r = ''[red]No contacts logged[/red]''
            \<and> days r = 0 \<and> percent r = 100 \<and> percent_overdue r = None
            \<and> ((\<forall>g' \<in> set (goals (run cmds)). goal_friend_id g' = friend_id f
                    \<longrightarrow> (\<forall>c \<in> set (contacts (run cmds)). \<not> contact_joins f g' c))
                 \<longrightarrow> most_overdue r = None))
     \<and> (\<forall>i j. i < j \<and> j < length (list_query jd now (run cmds))
              \<and> most_overdue (list_query jd now (run cmds) ! i) = None
            \<longrightarrow> most_overdue (list_query jd now (run cmds) ! j) = None
                \<and> name (list_query jd now (run cmds) ! i) \<le> name (list_query jd now (run cmds) ! j))"
proof (intro conjI allI impI)
  let ?st = "run cmds"
  let ?rows = "list_query jd now ?st"
  let ?r = "row_of jd now ?st (f, g)"
  have wf: "wf ?st" by (rule wf_run)
  have none: "filter (contact_joins f g') (contacts ?st) = []"
    if "\<forall>c \<in> set (contacts ?st). \<not> contact_joins f g' c" for g'
    using that by (simp add: filter_empty_conv)
  have null: "last_valid_contact (row_of jd now ?st (f, g')) = None
              \<and> days_since (row_of jd now ?st (f, g')) = None
              \<and> percent_overdue (row_of jd now ?st (f, g')) = None"
    if "\<forall>c \<in> set (contacts ?st). \<not> contact_joins f g' c" for g'
    by (simp add: row_of_simps none [OF that] days_between_def percent_of_def)
  have mem: "?r \<in> set ?rows" using assms(1-3) by (rule row_of_in_list_query)
  have most: "most_overdue ?r = None"
    if all: "\<forall>g' \<in> set (goals ?st). goal_friend_id g' = friend_id f
               \<longrightarrow> (\<forall>c \<in> set (contacts ?st). \<not> contact_joins f g' c)"
  proof -
    have "percent_overdue (row_of jd now ?st p) = None"
      if p: "p \<in> set (filter (\<lambda>p. friend_id (fst p) = friend_id f) (friend_goals ?st))" for p
    proof -
      obtain f' g' where pfg: "p = (f', g')" by (cases p)
      from p have fg: "f' \<in> set (friends ?st)" "g' \<in> set (goals ?st)"
        "friend_id f' = goal_friend_id g'" "friend_id f' = friend_id f"
        by (simp_all add: pfg friend_goals_iff)
      from wf fg(1) assms(1) fg(4) have "f' = f" by (rule same_id_same_friend)
      moreover from all fg have "\<forall>c \<in> set (contacts ?st). \<not> contact_joins f g' c" by simp
      ultimately show ?thesis using null [of g'] by (simp add: pfg)
    qed
    then show ?thesis
      unfolding most_overdue_row_of [OF wf] sql_max_None_iff by simp
  qed
  show "\<exists>r \<in> set ?rows.
            name r = friend_name f \<and> medium r = goal_medium g
            \<and> last_contact_string r = ''[red]No contacts logged[/red]''
            \<and> days r = 0 \<and> percent r = 100 \<and> percent_overdue r = None
            \<and> ((\<forall>g' \<in> set (goals ?st). goal_friend_id g' = friend_id f
                    \<longrightarrow> (\<forall>c \<in> set (contacts ?st). \<not> contact_joins f g' c))
                 \<longrightarrow> most_overdue r = None)"
  proof (rule bexI [OF _ mem], intro conjI impI)
    show "name ?r = friend_name f" "medium ?r = goal_medium g"
      by (simp_all add: row_of_simps)
    from null [OF assms(4)]
    show "last_contact_string ?r = ''[red]No contacts logged[/red]''"
      "days ?r = 0" "percent ?r = 100" "percent_overdue ?r = None"
      by (simp_all add: last_contact_string_def days_def percent_def)
    show "most_overdue ?r = None"
      if "\<forall>g' \<in> set (goals ?st). goal_friend_id g' = friend_id f
               \<longrightarrow> (\<forall>c \<in> set (contacts ?st). \<not> contact_joins f g' c)"
      using that by (rule most)
  qed
  fix i j assume ij: "i < j \<and> j < length ?rows \<and> most_overdue (?rows ! i) = None"
  then have "order_by (?rows ! i) (?rows ! j)"
    by (intro sorted_wrt_order_by_nth) simp_all
  with ij have "most_overdue (?rows ! j) = None \<and> name (?rows ! i) \<le> name (?rows ! j)"
    by (auto simp: order_by_def option_not_less_None)
  then show "most_overdue (?rows ! j) = None" "name (?rows ! i) \<le> name (?rows ! j)"
    by simp_all
qed

theorem never_contacted_listed_last_witness:
  "\<lparr>friend_id = 2, friend_name = ''Bo''\<rparr> \<in> set (friends (run two_silent))
   \<and> \<lparr>goal_friend_id = 2, goal_medium = Text, goal_frequency = 7\<rparr> \<in> set (goals (run two_silent))
   \<and> (\<exists>r. r \<in> set (list_query julianday_examples (4920629 / 2) (run two_silent))
          \<and> name r = ''Bo'' \<and> medium r = Text
          \<and> last_contact_string r = ''[red]No contacts logged[/red]''
          \<and> days r = 0 \<and> percent r = 100 \<and> percent_overdue r = None \<and> most_overdue r = None)
   \<and> most_overdue (list_query julianday_examples (4920629 / 2) (run two_silent) ! 1) = None
   \<and> most_overdue (list_query julianday_examples (4920629 / 2) (run two_silent) ! 2) = None
   \<and> name (list_query julianday_examples (4920629 / 2) (run two_silent) ! 1)
       \<le> name (list_query julianday_examples (4920629 / 2) (run two_silent) ! 2)
   \<and> map name (list_query julianday_examples (4920629 / 2) (run two_silent)) = [''Al'', ''Bo'', ''Cy'']"
proof -
  let ?f = "\<lparr>friend_id = 2, friend_name = ''Bo''\<rparr>"
  let ?g = "\<lparr>goal_friend_id = 2, goal_medium = Text, goal_frequency = 7\<rparr>"
  let ?rows = "list_query julianday_examples (4920629 / 2) (run two_silent)"
  have fs: "friends (run two_silent)
              = [\<lparr>friend_id = 1, friend_name = ''Cy''\<rparr>, ?f, \<lparr>friend_id = 3, friend_name = ''Al''\<rparr>]"
    by code_simp
  have gs: "goals (run two_silent)
              = [\<lparr>goal_friend_id = 1, goal_medium = Text, goal_frequency = 7\<rparr>, ?g,
                 \<lparr>goal_friend_id = 3, goal_medium = Text, goal_frequency = 7\<rparr>]"
    by code_simp
  have cs: "contacts (run two_silent)
              = [\<lparr>contact_id = 1, contact_friend_id = 3, contact_date = ''2024-01-01'',
                  contact_medium = Text\<rparr>]"
    by code_simp
  have names: "map name ?rows = [''Al'', ''Bo'', ''Cy'']"
    by code_simp
  have most: "map most_overdue ?rows = [Some (400 / 7), None, None]"
    by code_simp
  have f: "?f \<in> set (friends (run two_silent))" unfolding fs by simp
  have g: "?g \<in> set (goals (run two_silent))" unfolding gs by simp
  have ids: "goal_friend_id ?g = friend_id ?f" by simp
  have none: "\<forall>c \<in> set (contacts (run two_silent)). \<not> contact_joins ?f ?g c"
    unfolding cs by (simp add: contact_joins_def)
  have all: "\<forall>g' \<in> set (goals (run two_silent)). goal_friend_id g' = friend_id ?f
               \<longrightarrow> (\<forall>c \<in> set (contacts (run two_silent)). \<not> contact_joins ?f g' c)"
    unfolding cs gs by (simp add: contact_joins_def)
  note inst = never_contacted_listed_last [OF f g ids none, of julianday_examples "4920629 / 2"]
  from inst all
  have a: "\<exists>r. r \<in> set ?rows \<and> name r = ''Bo'' \<and> medium r = Text
          \<and> last_contact_string r = ''[red]No contacts logged[/red]''
          \<and> days r = 0 \<and> percent r = 100 \<and> percent_overdue r = None \<and> most_overdue r = None"
    by (auto simp: Bex_def)
  have len: "length ?rows = 3"
    using arg_cong [OF names, of length] by simp
  have m1: "most_overdue (?rows ! 1) = None"
    using arg_cong [OF most, of "\<lambda>xs. xs ! 1"] len by simp
  from inst have "\<forall>i j. i < j \<and> j < length ?rows \<and> most_overdue (?rows ! i) = None
            \<longrightarrow> most_overdue (?rows ! j) = None \<and> name (?rows ! i) \<le> name (?rows ! j)"
    by (rule conjunct2)
  then have "(1::nat) < 2 \<and> 2 < length ?rows \<and> most_overdue (?rows ! 1) = None
            \<longrightarrow> most_overdue (?rows ! 2) = None \<and> name (?rows ! 1) \<le> name (?rows ! 2)"
    by blast
  with m1 len have b: "most_overdue (?rows ! 2) = None" "name (?rows ! 1) \<le> name (?rows ! 2)"
    by simp_all
  from f g a m1 b names show ?thesis by (intro conjI)
qed

subsection \<open>C3: contact with an unknown name\<close>

text \<open>
  Claim C3. For every name that is not in the friends table, \<^verbatim>\<open>contact\<close> with that name is
  reported as friend-not-found, inserts nothing and is not fatal.

  After \<^verbatim>\<open>add Alice\<close>, \<^verbatim>\<open>contact Bob text\<close> raises the integrity error of the
  \<^verbatim>\<open>NOT NULL\<close> constraint, where \<^verbatim>\<open>goal\<close> with the same name prints its message and
  returns.
\<close>

theorem contact_unknown_friend_raises:
  "contact (run [Add ''Alice'']) ''Bob'' Text ''2024-01-01''
     = Inl (IntegrityError ''NOT NULL constraint failed: contacts.friend_id'')
   \<and> goal (run [Add ''Alice'']) ''Bob'' Text 7
     = Inr ([''[red]Bob not found in friends[/red]''], run [Add ''Alice''])"
proof -
  have "contact (run [Add ''Alice'']) ''Bob'' Text ''2024-01-01''
     = Inl (IntegrityError ''NOT NULL constraint failed: contacts.friend_id'')"
    by code_simp
  moreover have "goal (run [Add ''Alice'']) ''Bob'' Text 7
     = Inr ([''[red]Bob not found in friends[/red]''], run [Add ''Alice''])"
    by (simp add: goal_def select_friend_def run_def add_def init_db_def commit_def next_rowid_def)
  ultimately show ?thesis by (rule conjI)
qed

subsection \<open>C4: the order of the report\<close>



subsection \<open>C5: days since the last contact and the percentage\<close>




subsection \<open>C6: renaming to a name that is taken\<close>




subsection \<open>C7: frequency 0 removes the goal\<close>

text \<open>
  Claim C7. For every existing friend and medium, \<^verbatim>\<open>goal\<close> with frequency 0 deletes the goal
  row of that friend and medium, and the report that follows has no row for the pair.
\<close>

theorem goal_zero_removes_row:
  assumes "select_friend (run cmds) nm = Some f"
  shows "(\<exists>out. goal (run cmds) nm m 0 = Inr (out, run (cmds @ [Goal nm m 0])))
     \<and> goals (run (cmds @ [Goal nm m 0]))
         = filter (\<lambda>g. \<not> (goal_friend_id g = friend_id f \<and> goal_medium g = m)) (goals (run cmds))
     \<and> (\<forall>r \<in> set (list_query jd now (run (cmds @ [Goal nm m 0]))). \<not> (name r = nm \<and> medium r = m))"
proof -
  let ?st = "run cmds" and ?st' = "run (cmds @ [Goal nm m 0])"
  let ?gs = "filter (\<lambda>g. \<not> (goal_friend_id g = friend_id f \<and> goal_medium g = m)) (goals ?st)"
  have res: "goal ?st nm m 0 = Inr ([''Removed goal to '' @ medium_value m @ '' '' @ nm],
                                   ?st\<lparr>goals := ?gs\<rparr>)"
    using assms by (simp add: goal_def)
  then have st': "?st' = ?st\<lparr>goals := ?gs\<rparr>"
    by (simp add: run_snoc commit_def)
  have f: "f \<in> set (friends ?st)" "friend_name f = nm"
    using select_friend_Some [OF assms] by simp_all
  have "\<not> (name r = nm \<and> medium r = m)" if r: "r \<in> set (list_query jd now ?st')" for r
  proof
    assume nm: "name r = nm \<and> medium r = m"
    from wf_run r obtain f' g' where f': "f' \<in> set (friends ?st')" and g': "g' \<in> set (goals ?st')"
      and ids: "friend_id f' = goal_friend_id g'" and row: "r = row_of jd now ?st' (f', g')"
      by (rule row_in_list_query)
    from nm have "friend_name f' = nm" "goal_medium g' = m"
      by (simp_all add: row row_of_simps)
    moreover from f' have "f' \<in> set (friends ?st)" by (simp add: st')
    ultimately have "f' = f"
      using same_name_same_friend [OF wf_run, of f' cmds f] f by simp
    with g' ids \<open>goal_medium g' = m\<close> show False by (simp add: st')
  qed
  with res st' show ?thesis by simp
qed

theorem goal_zero_removes_row_witness:
  "select_friend (run al_bo) ''Al'' = Some \<lparr>friend_id = 1, friend_name = ''Al''\<rparr>
   \<and> goals (run (al_bo @ [Goal ''Al'' Text 0]))
       = [\<lparr>goal_friend_id = 2, goal_medium = Text, goal_frequency = 7\<rparr>]
   \<and> map name (list_query julianday_examples 0 (run (al_bo @ [Goal ''Al'' Text 0]))) = [''Bo'']"
proof -
  have sel: "select_friend (run al_bo) ''Al'' = Some \<lparr>friend_id = 1, friend_name = ''Al''\<rparr>"
    by code_simp
  have gs: "goals (run al_bo)
              = [\<lparr>goal_friend_id = 1, goal_medium = Text, goal_frequency = 7\<rparr>,
                 \<lparr>goal_friend_id = 2, goal_medium = Text, goal_frequency = 7\<rparr>]"
    by code_simp
  have rows: "map name (list_query julianday_examples 0 (run (al_bo @ [Goal ''Al'' Text 0]))) = [''Bo'']"
    by code_simp
  from goal_zero_removes_row [OF sel, of Text julianday_examples 0]
  have "goals (run (al_bo @ [Goal ''Al'' Text 0]))
       = [\<lparr>goal_friend_id = 2, goal_medium = Text, goal_frequency = 7\<rparr>]"
    unfolding gs by simp
  with sel rows show ?thesis by (intro conjI)
qed

subsection \<open>C8: one row for each goal\<close>

text \<open>
  Claim C8. The report has exactly one row for each pair of a friend and one of their goals
  in the store; a friend without goals is left out, whatever contacts they have.

  The rows have distinct pairs of name and medium, their names, media and frequencies are
  those of the pairs of a friend and a goal of that friend, and there are as many rows as
  goals.
\<close>

theorem list_one_row_per_goal:
  "distinct (map (\<lambda>r. (name r, medium r)) (list_query jd now (run cmds)))
   \<and> set (map (\<lambda>r. (name r, medium r, frequency r)) (list_query jd now (run cmds)))
       = {(friend_name f, goal_medium g, goal_frequency g) | f g.
            f \<in> set (friends (run cmds)) \<and> g \<in> set (goals (run cmds))
            \<and> goal_friend_id g = friend_id f}
   \<and> length (list_query jd now (run cmds)) = length (goals (run cmds))
   \<and> (\<forall>f \<in> set (friends (run cmds)).
         (\<forall>g \<in> set (goals (run cmds)). goal_friend_id g \<noteq> friend_id f)
         \<longrightarrow> (\<forall>r \<in> set (list_query jd now (run cmds)). name r \<noteq> friend_name f))"
proof (intro conjI)
  let ?st = "run cmds"
  have wf: "wf ?st" by (rule wf_run)
  show "distinct (map (\<lambda>r. (name r, medium r)) (list_query jd now ?st))"
    using wf by (rule distinct_list_query_keys)
  show "length (list_query jd now ?st) = length (goals ?st)"
    using wf by (rule length_list_query)
  show "set (map (\<lambda>r. (name r, medium r, frequency r)) (list_query jd now ?st))
       = {(friend_name f, goal_medium g, goal_frequency g) | f g.
            f \<in> set (friends ?st) \<and> g \<in> set (goals ?st) \<and> goal_friend_id g = friend_id f}"
    (is "?L = ?R")
  proof (intro set_eqI iffI)
    fix x assume "x \<in> ?L"
    then obtain r where r: "r \<in> set (list_query jd now ?st)"
      and x: "x = (name r, medium r, frequency r)" by auto
    from wf r obtain f g where fg: "f \<in> set (friends ?st)" "g \<in> set (goals ?st)"
      "friend_id f = goal_friend_id g" and row: "r = row_of jd now ?st (f, g)"
      by (rule row_in_list_query)
    have "x = (friend_name f, goal_medium g, goal_frequency g)"
      by (simp add: x row row_of_simps)
    with fg have "\<exists>f g. x = (friend_name f, goal_medium g, goal_frequency g)
                   \<and> f \<in> set (friends ?st) \<and> g \<in> set (goals ?st) \<and> goal_friend_id g = friend_id f"
      by (intro exI [of _ f] exI [of _ g]) simp
    then show "x \<in> ?R" by simp
  next
    fix x assume "x \<in> ?R"
    then obtain f g where fg: "f \<in> set (friends ?st)" "g \<in> set (goals ?st)"
      "goal_friend_id g = friend_id f"
      and x: "x = (friend_name f, goal_medium g, goal_frequency g)" by auto
    from fg have "(f, g) \<in> set (friend_goals ?st)" by (simp add: friend_goals_iff)
    then have "row_of jd now ?st (f, g) \<in> set (list_query jd now ?st)"
      by (simp add: set_list_query [OF wf])
    then have "(\<lambda>r. (name r, medium r, frequency r)) (row_of jd now ?st (f, g)) \<in> ?L"
      unfolding set_map by (rule imageI)
    then show "x \<in> ?L" by (simp add: x row_of_simps)
  qed
  show "\<forall>f \<in> set (friends ?st).
         (\<forall>g \<in> set (goals ?st). goal_friend_id g \<noteq> friend_id f)
         \<longrightarrow> (\<forall>r \<in> set (list_query jd now ?st). name r \<noteq> friend_name f)"
  proof (intro ballI impI)
    fix f r assume f: "f \<in> set (friends ?st)"
      and none: "\<forall>g \<in> set (goals ?st). goal_friend_id g \<noteq> friend_id f"
      and r: "r \<in> set (list_query jd now ?st)"
    from wf r obtain f' g' where f': "f' \<in> set (friends ?st)" and g': "g' \<in> set (goals ?st)"
      and ids: "friend_id f' = goal_friend_id g'" and row: "r = row_of jd now ?st (f', g')"
      by (rule row_in_list_query)
    show "name r \<noteq> friend_name f"
    proof
      assume "name r = friend_name f"
      then have "friend_name f' = friend_name f" by (simp add: row row_of_simps)
      with wf f' f have "f' = f" by (rule same_name_same_friend)
      with ids have "goal_friend_id g' = friend_id f" by simp
      with none g' show False by blast
    qed
  qed
qed

text \<open>Bo has a contact and no goal; the two rows of the report are Al's.\<close>

theorem list_one_row_per_goal_witness:
  "\<lparr>friend_id = 2, friend_name = ''Bo''\<rparr> \<in> set (friends (run bo_without_goal))
   \<and> map goal_friend_id (goals (run bo_without_goal)) = [1, 1]
   \<and> length (list_query julianday_examples 0 (run bo_without_goal)) = 2
   \<and> ''Bo'' \<notin> set (map name (list_query julianday_examples 0 (run bo_without_goal)))"
proof -
  have fs: "friends (run bo_without_goal)
              = [\<lparr>friend_id = 1, friend_name = ''Al''\<rparr>, \<lparr>friend_id = 2, friend_name = ''Bo''\<rparr>]"
    by code_simp
  have gs: "goals (run bo_without_goal)
              = [\<lparr>goal_friend_id = 1, goal_medium = Text, goal_frequency = 7\<rparr>,
                 \<lparr>goal_friend_id = 1, goal_medium = Call, goal_frequency = 30\<rparr>]"
    by code_simp
  have bo: "\<lparr>friend_id = 2, friend_name = ''Bo''\<rparr> \<in> set (friends (run bo_without_goal))"
    unfolding fs by simp
  have none: "\<forall>g \<in> set (goals (run bo_without_goal)).
                goal_friend_id g \<noteq> friend_id \<lparr>friend_id = 2, friend_name = ''Bo''\<rparr>"
    unfolding gs by simp
  note inst = list_one_row_per_goal [of julianday_examples 0 bo_without_goal]
  from inst have "length (list_query julianday_examples 0 (run bo_without_goal))
                    = length (goals (run bo_without_goal))"
    by blast
  then have len: "length (list_query julianday_examples 0 (run bo_without_goal)) = 2"
    unfolding gs by simp
  from inst bo none
  have "\<forall>r \<in> set (list_query julianday_examples 0 (run bo_without_goal)).
          name r \<noteq> friend_name \<lparr>friend_id = 2, friend_name = ''Bo''\<rparr>"
    by blast
  then have omitted: "''Bo'' \<notin> set (map name (list_query julianday_examples 0 (run bo_without_goal)))"
    by auto
  have ids: "map goal_friend_id (goals (run bo_without_goal)) = [1, 1]"
    unfolding gs by simp
  from bo ids len omitted show ?thesis by (intro conjI)
qed

subsection \<open>C9: renaming keeps contacts and goals\<close>



subsection \<open>C10: no goal has frequency 0\<close>

text \<open>
  Claim C10. After any sequence of commands from the empty store, every row of \<open>goals\<close> has a
  frequency other than 0: \<^verbatim>\<open>goal\<close> deletes the row when the frequency is 0 and stores any
  other frequency as given, a negative one too. So the division by \<^verbatim>\<open>g.frequency\<close> in the
  query never divides by zero: no row of the report has frequency 0, and its percentage is
  \<^verbatim>\<open>NULL\<close> only when its days are.
\<close>

theorem goal_frequency_never_zero:
  "(\<forall>g \<in> set (goals (run cmds)). goal_frequency g \<noteq> 0)
   \<and> (\<forall>r \<in> set (list_query jd now (run cmds)).
         frequency r \<noteq> 0 \<and> (percent_overdue r = None \<longrightarrow> days_since r = None))
   \<and> (\<forall>f. select_friend (run cmds) nm = Some f \<and> n \<noteq> 0 \<and> - (2 ^ 63) \<le> n \<and> n < 2 ^ 63
         \<longrightarrow> \<lparr>goal_friend_id = friend_id f, goal_medium = m, goal_frequency = n\<rparr>
               \<in> set (goals (run (cmds @ [Goal nm m n]))))"
proof (intro conjI ballI allI impI)
  fix g assume "g \<in> set (goals (run cmds))"
  with wf_run [of cmds] show "goal_frequency g \<noteq> 0" by (simp add: wf_def)
next
  fix r assume r: "r \<in> set (list_query jd now (run cmds))"
  from wf_run r obtain f g where g: "g \<in> set (goals (run cmds))"
    and row: "r = row_of jd now (run cmds) (f, g)"
    by (rule row_in_list_query)
  from g wf_run [of cmds] have nz: "goal_frequency g \<noteq> 0" by (simp add: wf_def)
  then show "frequency r \<noteq> 0" by (simp add: row row_of_simps)
  assume "percent_overdue r = None"
  with nz show "days_since r = None"
    by (simp add: row row_of_simps(6) percent_of_None)
next
  fix f assume "select_friend (run cmds) nm = Some f \<and> n \<noteq> 0 \<and> - (2 ^ 63) \<le> n \<and> n < 2 ^ 63"
  then show "\<lparr>goal_friend_id = friend_id f, goal_medium = m, goal_frequency = n\<rparr>
               \<in> set (goals (run (cmds @ [Goal nm m n])))"
    unfolding run_snoc by (intro goal_nonzero_stores) simp_all
qed

theorem goal_frequency_never_zero_witness:
  "\<lparr>goal_friend_id = 1, goal_medium = Call, goal_frequency = - 5\<rparr> \<in> set (goals (run negative_goal))
   \<and> goal_frequency \<lparr>goal_friend_id = 1, goal_medium = Call, goal_frequency = - 5\<rparr> \<noteq> 0
   \<and> select_friend (run [Add ''Al'']) ''Al'' = Some \<lparr>friend_id = 1, friend_name = ''Al''\<rparr>
   \<and> \<lparr>goal_friend_id = 1, goal_medium = Call, goal_frequency = - 5\<rparr>
        \<in> set (goals (run ([Add ''Al''] @ [Goal ''Al'' Call (- 5)])))"
proof -
  have gs: "goals (run negative_goal)
              = [\<lparr>goal_friend_id = 1, goal_medium = Call, goal_frequency = - 5\<rparr>]"
    by code_simp
  have g: "\<lparr>goal_friend_id = 1, goal_medium = Call, goal_frequency = - 5\<rparr>
             \<in> set (goals (run negative_goal))"
    unfolding gs by simp
  have sel: "select_friend (run [Add ''Al'']) ''Al'' = Some \<lparr>friend_id = 1, friend_name = ''Al''\<rparr>"
    by code_simp
  note inst = goal_frequency_never_zero [where cmds = negative_goal]
  note inst2 = goal_frequency_never_zero
     [where cmds = "[Add ''Al'']" and nm = "''Al''" and n = "- 5" and m = Call]
  from inst g have nz: "goal_frequency \<lparr>goal_friend_id = 1, goal_medium = Call, goal_frequency = - 5\<rparr> \<noteq> 0"
    by blast
  from inst2 sel have "\<lparr>goal_friend_id = friend_id \<lparr>friend_id = 1, friend_name = ''Al''\<rparr>,
                        goal_medium = Call, goal_frequency = - 5\<rparr>
        \<in> set (goals (run ([Add ''Al''] @ [Goal ''Al'' Call (- 5)])))"
    by simp
  then have "\<lparr>goal_friend_id = 1, goal_medium = Call, goal_frequency = - 5\<rparr>
        \<in> set (goals (run ([Add ''Al''] @ [Goal ''Al'' Call (- 5)])))"
    by simp
  with g nz sel show ?thesis by (intro conjI)
qed

end
